theory Spec2Isabelle
  imports Main "HOL-Library.Sublist"
begin

section \<open>Strings\<close>

text \<open>
  A Go string is a sequence of bytes; it is modelled as a \<open>string\<close> (a list of 8-bit
  characters), so that \<open>length\<close> is Go's \<open>len\<close>. The functions of package \<open>strings\<close>
  that the checker calls are modelled on 7-bit text: a byte above 127 is an ordinary
  character that is neither white space nor a letter with a case.
\<close>

definition is_space :: "char \<Rightarrow> bool" where
  \<comment> \<open>the white space of \<open>strings.TrimSpace\<close> and \<open>strings.Fields\<close>:
      tab, line feed, vertical tab, form feed, carriage return, space\<close>
  "is_space c = (c \<in> {CHR 0x09, CHR 0x0A, CHR 0x0B, CHR 0x0C, CHR 0x0D, CHR '' ''})"

definition is_digit :: "char \<Rightarrow> bool" where
  \<comment> \<open>\<open>char >= '0' && char <= '9'\<close>, and the class \<open>\d\<close> of package \<open>regexp\<close>\<close>
  "is_digit c = ((48::nat) \<le> of_char c \<and> of_char c \<le> (57::nat))"

definition to_lower :: "char \<Rightarrow> char" where
  "to_lower c = (if (65::nat) \<le> of_char c \<and> of_char c \<le> (90::nat)
                 then char_of (of_char c + (32::nat)) else c)"

definition ToLower :: "string \<Rightarrow> string" where
  "ToLower s = map to_lower s"

definition TrimSpace :: "string \<Rightarrow> string" where
  "TrimSpace s = rev (dropWhile is_space (rev (dropWhile is_space s)))"

fun Contains :: "string \<Rightarrow> string \<Rightarrow> bool" where
  "Contains [] sub = (sub = [])"
| "Contains (c # s) sub = (prefix sub (c # s) \<or> Contains s sub)"

fun Split :: "string \<Rightarrow> char \<Rightarrow> string list" where
  \<comment> \<open>\<open>strings.Split(s, sep)\<close> for a separator of one byte: never the empty list\<close>
  "Split [] sep = [[]]"
| "Split (c # s) sep =
     (if c = sep then [] # Split s sep
      else (case Split s sep of l # ls \<Rightarrow> (c # l) # ls | [] \<Rightarrow> [[c]]))"

section \<open>The heuristic \<open>looksLikeVersionOutput\<close>\<close>

definition rejectPatterns :: "string list" where
  "rejectPatterns =
     [''usage:'', ''error:'', ''flag provided'', ''unknown flag'', ''unknown command'',
      ''help'', ''failed validation'']"

definition looksLikeVersionOutput :: "string \<Rightarrow> bool" where
  "looksLikeVersionOutput output =
     (let lines = Split output CHR 0x0A in
      if length lines = 0 then False
      else
        let firstLine = TrimSpace (lines ! 0);
            lowerFirstLine = ToLower firstLine
        in if length firstLine > 200 then False
           else if \<exists>pattern \<in> set rejectPatterns. Contains lowerFirstLine pattern then False
           else
             let hasDigit = (\<exists>char \<in> set firstLine. is_digit char);
                 hasVersionPattern = (Contains firstLine ''.'' \<and> hasDigit)
             in hasVersionPattern)"

section \<open>Extraction of the version\<close>

text \<open>
  The default pattern is \<^verbatim>\<open>\d+\.\d+(\.\d+)?\<close>. \<open>versionRe_match\<close> is its match anchored
  at the head of a string under the leftmost-first rule of package \<open>regexp\<close>: each
  \<^verbatim>\<open>\d+\<close> is greedy and the optional group is taken when it can be. Giving digits back
  never helps (the character after a shorter run is a digit, not a dot), so the greedy choice
  is the match. \<open>versionRe_FindString\<close> tries every start from the left and returns the empty
  string when nothing matches, as \<open>FindString\<close> does.
\<close>

definition versionRe_match :: "string \<Rightarrow> string option" where
  "versionRe_match s =
     (let d1 = takeWhile is_digit s; r1 = dropWhile is_digit s in
      if d1 = [] then None
      else (case r1 of
              [] \<Rightarrow> None
            | c # r2 \<Rightarrow>
                if c \<noteq> CHR ''.'' then None
                else
                  let d2 = takeWhile is_digit r2; r3 = dropWhile is_digit r2 in
                  if d2 = [] then None
                  else (case r3 of
                          [] \<Rightarrow> Some (d1 @ ''.'' @ d2)
                        | c' # r4 \<Rightarrow>
                            let d3 = takeWhile is_digit r4 in
                            if c' = CHR ''.'' \<and> d3 \<noteq> [] then Some (d1 @ ''.'' @ d2 @ ''.'' @ d3)
                            else Some (d1 @ ''.'' @ d2))))"

fun versionRe_FindString :: "string \<Rightarrow> string" where
  "versionRe_FindString [] = []"
| "versionRe_FindString (c # s) =
     (case versionRe_match (c # s) of Some m \<Rightarrow> m | None \<Rightarrow> versionRe_FindString s)"

text \<open>
  An error is modelled by its message (what \<open>Error()\<close> returns); \<open>fmt.Errorf\<close> with
  \<^verbatim>\<open>%w\<close> prepends its text to the message of the wrapped error. A fallible function
  returns \<open>Inl\<close> of the error or \<open>Inr\<close> of the value.
\<close>

type_synonym error = string

fun scan_lines :: "string list \<Rightarrow> error + string" where
  \<comment> \<open>the loop over the lines of \<open>extractVersion\<close>, and the return that follows it\<close>
  "scan_lines [] = Inl ''no version found in output''"
| "scan_lines (line # lines) =
     (let line = TrimSpace line in
      if line = [] then scan_lines lines
      else
        let match = versionRe_FindString line in
        if match \<noteq> [] then Inr match else scan_lines lines)"

definition extractVersion ::
  "(string \<Rightarrow> error + (string \<Rightarrow> string list)) \<Rightarrow> string \<Rightarrow> string \<Rightarrow> error + string" where
  \<comment> \<open>\<open>regexp_Compile\<close> is \<open>regexp.Compile\<close>; a compiled expression is represented by its
      \<open>FindStringSubmatch\<close>, the empty list being \<open>nil\<close>\<close>
  "extractVersion regexp_Compile output pattern =
     (if pattern \<noteq> [] then
        (case regexp_Compile pattern of
           Inl err \<Rightarrow> Inl (''invalid version pattern: '' @ err)
         | Inr re \<Rightarrow>
             let matches = re output in
             if length matches > 1 then Inr (matches ! 1)
             else if length matches > 0 then Inr (matches ! 0)
             else Inl ''pattern did not match'')
      else scan_lines (Split output CHR 0x0A))"

section \<open>Tools, results and the platform\<close>

record Tool =
  Name :: string
  CLI :: string
  Version :: string
  VersionArg :: string
  VersionPattern :: string
  Optional :: bool
  Message :: string
  Source :: string

type_synonym Status = string

definition StatusPass :: Status where "StatusPass = ''pass''"
definition StatusFail :: Status where "StatusFail = ''fail''"
definition StatusOptionalMissing :: Status where "StatusOptionalMissing = ''optional_missing''"

record Result =
  Tool :: Tool
  Status :: Status
  InstalledVersion :: string
  Path :: string
  Output :: string
  Error :: "error option"

text \<open>
  Time is counted in nanoseconds, as \<open>time.Duration\<close> does. A context is its deadline. A
  command is what \<open>exec.CommandContext\<close> is given.
\<close>

definition Second :: nat where "Second = 1000000000"

record Cmd =
  ctx :: nat
  name :: string
  args :: "string list"

definition CommandContext :: "nat \<Rightarrow> string \<Rightarrow> string list \<Rightarrow> Cmd" where
  "CommandContext c n as = \<lparr>ctx = c, name = n, args = as\<rparr>"

text \<open>
  The world outside the checker: the clock, and the history of the calls of \<open>cmd.Run\<close>, each
  with the command, the time it started, what it wrote to the shared buffer of standard
  output and standard error, and its error.
\<close>

record run_event =
  ev_cmd :: Cmd
  ev_start :: nat
  ev_output :: string
  ev_err :: "error option"

record world =
  now :: nat
  runs :: "run_event list"

text \<open>
  The platform and the libraries are parameters: the lookup on the search path; \<open>cmd.Run\<close>,
  which from the time and the command gives the captured text, the error (a start failure, a
  non-zero exit, a kill at the deadline) and the time at which it returns; \<open>regexp.Compile\<close>;
  and the three functions of the semantic-version library.
\<close>

record ('c, 'v) platform =
  LookPath :: "string \<Rightarrow> error + string"
  cmd_Run :: "nat \<Rightarrow> Cmd \<Rightarrow> string \<times> error option \<times> nat"
  regexp_Compile :: "string \<Rightarrow> error + (string \<Rightarrow> string list)"
  NewConstraint :: "string \<Rightarrow> error + 'c"
  NewVersion :: "string \<Rightarrow> error + 'v"
  constraint_Check :: "'c \<Rightarrow> 'v \<Rightarrow> bool"

section \<open>The version prober\<close>

function Fields :: "string \<Rightarrow> string list" where
  \<comment> \<open>\<open>strings.Fields\<close>: the maximal runs of characters that are not white space\<close>
  "Fields s =
     (let r = dropWhile is_space s in
      if r = [] then []
      else takeWhile (\<lambda>c. \<not> is_space c) r # Fields (dropWhile (\<lambda>c. \<not> is_space c) r))"
  by pat_completeness auto
termination
proof (relation "measure length")
  show "wf (measure length)" by simp
next
  fix s r :: string
  assume r: "r = dropWhile is_space s" and ne: "r \<noteq> []"
  from ne obtain x r' where xr: "r = x # r'" by (cases r) auto
  from r ne have "\<not> is_space (hd r)" by (simp add: hd_dropWhile)
  with xr have "\<not> is_space x" by simp
  with xr have "length (dropWhile (\<lambda>c. \<not> is_space c) r) \<le> length r'"
    by (simp add: length_dropWhile_le)
  also have "\<dots> < length r" using xr by simp
  also have "\<dots> \<le> length s" using r by (simp add: length_dropWhile_le)
  finally show "(dropWhile (\<lambda>c. \<not> is_space c) r, s) \<in> measure length" by simp
qed

declare Fields.simps [simp del]

definition runCommand ::
  "('c, 'v) platform \<Rightarrow> Cmd \<Rightarrow> world \<Rightarrow> (string \<times> error option) \<times> world" where
  "runCommand sys cmd w =
     (case cmd_Run sys (now w) cmd of (out, err, t) \<Rightarrow>
        let output = out;
            w' = \<lparr>now = t,
                  runs = runs w @ [\<lparr>ev_cmd = cmd, ev_start = now w, ev_output = out, ev_err = err\<rparr>]\<rparr>
        in if err \<noteq> None then
             (if output \<noteq> [] then ((output, err), w') else (([], err), w'))
           else ((output, None), w'))"

definition commonVersionArgs :: "string list list" where
  "commonVersionArgs =
     [[''--version''], [''version''], [''-v''], [''-V''], [''--version-short''], [''-version'']]"

fun try_args ::
  "('c, 'v) platform \<Rightarrow> nat \<Rightarrow> Tool \<Rightarrow> string list list \<Rightarrow> world \<Rightarrow> string option \<times> world" where
  \<comment> \<open>the loop of the smart guess: \<open>Some\<close> is its early return, \<open>None\<close> its running out\<close>
  "try_args sys c tool [] w = (None, w)"
| "try_args sys c tool (as # rest) w =
     (let cmd = CommandContext c (CLI tool) as in
      case runCommand sys cmd w of ((output, err), w') \<Rightarrow>
        if output \<noteq> [] \<and> looksLikeVersionOutput output then (Some output, w')
        else try_args sys c tool rest w')"

definition executeVersionCommand ::
  "('c, 'v) platform \<Rightarrow> Tool \<Rightarrow> world \<Rightarrow> (error + string) \<times> world" where
  "executeVersionCommand sys tool w =
     (let c = now w + 5 * Second in
      if VersionArg tool \<noteq> [] then
        (let as = Fields (VersionArg tool);
             cmd = CommandContext c (CLI tool) as in
         case runCommand sys cmd w of ((output, err), w') \<Rightarrow>
           (case err of
              Some e \<Rightarrow> (Inl (CLI tool @ '': '' @ e), w')
            | None \<Rightarrow> (Inr output, w')))
      else
        (case try_args sys c tool commonVersionArgs w of
           (Some output, w') \<Rightarrow> (Inr output, w')
         | (None, w') \<Rightarrow> (Inl (CLI tool @ '': failed to get version''), w')))"

section \<open>The check of one tool, and of many\<close>

definition checkExistence :: "('c, 'v) platform \<Rightarrow> Tool \<Rightarrow> Result \<Rightarrow> Result" where
  "checkExistence sys tool result =
     (case LookPath sys (CLI tool) of
        Inl err \<Rightarrow>
          result\<lparr>Status := (if Optional tool then StatusOptionalMissing else StatusFail),
                 Error := Some (CLI tool @ '': command not found'')\<rparr>
      | Inr path \<Rightarrow> result\<lparr>Status := StatusPass, Path := path\<rparr>)"

definition checkVersion ::
  "('c, 'v) platform \<Rightarrow> Tool \<Rightarrow> Result \<Rightarrow> world \<Rightarrow> Result \<times> world" where
  "checkVersion sys tool result w =
     (case executeVersionCommand sys tool w of
        (Inl err, w') \<Rightarrow>
          (result\<lparr>Status := (if Optional tool then StatusOptionalMissing else StatusFail),
                  Error := Some err\<rparr>, w')
      | (Inr versionOutput, w') \<Rightarrow>
          let result = result\<lparr>Output := versionOutput\<rparr> in
          (case extractVersion (regexp_Compile sys) versionOutput (VersionPattern tool) of
             Inl err \<Rightarrow>
               (result\<lparr>Status := StatusFail,
                       Error := Some (''failed to extract version: '' @ err)\<rparr>, w')
           | Inr version \<Rightarrow>
               let result = result\<lparr>InstalledVersion := version\<rparr> in
               (case NewConstraint sys (Version tool) of
                  Inl err \<Rightarrow>
                    (result\<lparr>Status := StatusFail,
                            Error := Some (''invalid version constraint '' @ [CHR 0x27]
                                           @ Version tool @ [CHR 0x27] @ '': '' @ err)\<rparr>, w')
                | Inr constraint \<Rightarrow>
                    (case NewVersion sys version of
                       Inl err \<Rightarrow>
                         (result\<lparr>Status := StatusFail,
                                 Error := Some (''failed to parse installed version '' @ [CHR 0x27]
                                                @ version @ [CHR 0x27] @ '': '' @ err)\<rparr>, w')
                     | Inr installedVer \<Rightarrow>
                         if constraint_Check sys constraint installedVer
                         then (result\<lparr>Status := StatusPass\<rparr>, w')
                         else (result\<lparr>Status := (if Optional tool then StatusOptionalMissing
                                                   else StatusFail)\<rparr>, w')))))"

definition new_Result :: "Tool \<Rightarrow> Result" where
  \<comment> \<open>\<open>&Result{Tool: tool}\<close>: every other field has the zero value of its type\<close>
  "new_Result tool =
     \<lparr>Tool = tool, Status = [], InstalledVersion = [], Path = [], Output = [], Error = None\<rparr>"

definition Check :: "('c, 'v) platform \<Rightarrow> Tool \<Rightarrow> world \<Rightarrow> Result \<times> world" where
  "Check sys tool w =
     (let result = new_Result tool in
      if Version tool = [] then (checkExistence sys tool result, w)
      else checkVersion sys tool result w)"

definition not_in_config :: "string \<Rightarrow> Result" where
  \<comment> \<open>the result that \<open>CheckAll\<close> makes for a name that the configuration does not have\<close>
  "not_in_config n =
     \<lparr>Tool = \<lparr>Name = n, CLI = n, Version = [], VersionArg = [], VersionPattern = [],
              Optional = False, Message = [], Source = []\<rparr>,
      Status = StatusFail, InstalledVersion = [], Path = [], Output = [],
      Error = Some (''tool '' @ [CHR 0x27] @ n @ [CHR 0x27] @ '' not found in configuration'')\<rparr>"

text \<open>
  A Go map is modelled as an association list with distinct keys: \<open>tools[name]\<close> is
  \<open>map_of\<close>, and the order of the list is the order in which \<open>range\<close> visits the entries in
  this run, about which nothing is assumed.
\<close>

fun check_filter ::
  "('c, 'v) platform \<Rightarrow> (string \<times> Tool) list \<Rightarrow> string list \<Rightarrow> Result list \<Rightarrow> world
     \<Rightarrow> Result list \<times> world" where
  "check_filter sys tools [] results w = (results, w)"
| "check_filter sys tools (n # names) results w =
     (case map_of tools n of
        None \<Rightarrow> check_filter sys tools names (results @ [not_in_config n]) w
      | Some tool \<Rightarrow>
          (case Check sys tool w of (r, w') \<Rightarrow>
             check_filter sys tools names (results @ [r]) w'))"

fun check_range ::
  "('c, 'v) platform \<Rightarrow> (string \<times> Tool) list \<Rightarrow> Result list \<Rightarrow> world \<Rightarrow> Result list \<times> world" where
  "check_range sys [] results w = (results, w)"
| "check_range sys ((n, tool) # tools) results w =
     (case Check sys tool w of (r, w') \<Rightarrow> check_range sys tools (results @ [r]) w')"

definition CheckAll ::
  "('c, 'v) platform \<Rightarrow> (string \<times> Tool) list \<Rightarrow> string list \<Rightarrow> world \<Rightarrow> Result list \<times> world" where
  \<comment> \<open>\<open>names\<close> is the parameter \<open>filter\<close> of the source\<close>
  "CheckAll sys tools names w =
     (let results = [] in
      if length names > 0 then check_filter sys tools names results w
      else check_range sys tools results w)"

section \<open>The words of the specification\<close>



definition digits :: "string \<Rightarrow> bool" where
  "digits s = (s \<noteq> [] \<and> (\<forall>c \<in> set s. is_digit c))"

definition version_form :: "string \<Rightarrow> bool" where
  "version_form v =
     (\<exists>x y. digits x \<and> digits y \<and>
        (v = x @ ''.'' @ y \<or> (\<exists>z. digits z \<and> v = x @ ''.'' @ y @ ''.'' @ z)))"

definition has_match :: "string \<Rightarrow> bool" where
  "has_match line = (\<exists>j m. prefix m (drop j line) \<and> version_form m)"

definition first_match :: "string \<Rightarrow> string \<Rightarrow> bool" where
  "first_match line m =
     (\<exists>i. prefix m (drop i line) \<and> version_form m \<and>
        (\<forall>j m'. prefix m' (drop j line) \<and> version_form m' \<longrightarrow>
           i \<le> j \<and> (j = i \<longrightarrow> length m' \<le> length m)))"

definition qualifies :: "string \<Rightarrow> bool" where
  "qualifies out = (out \<noteq> [] \<and> looksLikeVersionOutput out)"

definition budget :: "run_event \<Rightarrow> nat" where
  "budget e = ctx (ev_cmd e) - ev_start e"

section \<open>Three machines\<close>

text \<open>
  Concrete platforms on which the checker is run below. On \<open>lab\<close>, \<open>go\<close> answers only to
  \<open>version\<close>, \<open>old\<close> is too old, \<open>nightly\<close> prints a banner without a version, \<open>weird\<close> prints
  one that the version library refuses, and nothing else is installed. On \<open>kube\<close>,
  \<open>kubeconform -v\<close> prints its version and exits with status 1. On \<open>slow\<close>, every process
  hangs without output until its context kills it, and a process whose context has already
  expired is not started.
\<close>

definition w0 :: world where
  "w0 = \<lparr>now = 0, runs = []\<rparr>"

definition lab :: "(string, string) platform" where
  "lab =
     \<lparr>LookPath = (\<lambda>c. if c \<in> {''go'', ''old'', ''nightly'', ''weird''} then Inr (''/usr/bin/'' @ c)
                        else Inl ''executable file not found in $PATH''),
      cmd_Run = (\<lambda>t cmd.
         if name cmd = ''go'' then
           (if args cmd = [''version'']
            then (''go version go1.20.0 darwin/amd64\<newline>'', None, t + 1000)
            else (''flag provided but not defined'', Some ''exit status 2'', t + 1000))
         else if name cmd = ''old'' then (''old 1.19.0\<newline>'', None, t + 1000)
         else if name cmd = ''nightly'' then (''nightly build 7.\<newline>'', None, t + 1000)
         else if name cmd = ''weird'' then (''weird 01.2\<newline>'', None, t + 1000)
         else ([], Some ''executable file not found in $PATH'', t)),
      regexp_Compile = (\<lambda>p. Inl ''error parsing regexp''),
      NewConstraint = (\<lambda>s. if s = ''>=1.20.0'' then Inr s else Inl ''improper constraint''),
      NewVersion = (\<lambda>s. if s \<in> {''1.20.0'', ''1.19.0''} then Inr s
                          else Inl ''Invalid Semantic Version''),
      constraint_Check = (\<lambda>c v. v = ''1.20.0'')\<rparr>"

definition go_tool :: Tool where
  "go_tool = \<lparr>Name = ''go'', CLI = ''go'', Version = ''>=1.20.0'', VersionArg = [],
              VersionPattern = [], Optional = False, Message = [], Source = ''config''\<rparr>"

definition make_tool :: Tool where
  "make_tool = go_tool\<lparr>Version := []\<rparr>"

definition jq_tool :: Tool where
  "jq_tool = go_tool\<lparr>Name := ''jq'', CLI := ''jq'', Optional := True\<rparr>"

definition jq_exists_tool :: Tool where
  "jq_exists_tool = jq_tool\<lparr>Version := []\<rparr>"

definition old_tool :: Tool where
  "old_tool = go_tool\<lparr>Name := ''old'', CLI := ''old'', Optional := True\<rparr>"

definition nightly_tool :: Tool where
  "nightly_tool = go_tool\<lparr>Name := ''nightly'', CLI := ''nightly'', Optional := True\<rparr>"

definition weird_tool :: Tool where
  "weird_tool = go_tool\<lparr>Name := ''weird'', CLI := ''weird'', Optional := True\<rparr>"

definition typo_tool :: Tool where
  "typo_tool = go_tool\<lparr>Version := ''=>1.20'', Optional := True\<rparr>"

definition kube :: "(string, string) platform" where
  "kube =
     \<lparr>LookPath = (\<lambda>c. Inr (''/usr/local/bin/'' @ c)),
      cmd_Run = (\<lambda>t cmd.
         if args cmd = [''-v''] then (''v0.6.4\<newline>'', Some ''exit status 1'', t + 1000)
         else (''flag provided but not defined'', Some ''exit status 2'', t + 1000)),
      regexp_Compile = (\<lambda>p. Inl ''error parsing regexp''),
      NewConstraint = (\<lambda>s. Inr s),
      NewVersion = (\<lambda>s. Inr s),
      constraint_Check = (\<lambda>c v. True)\<rparr>"

definition kube_tool :: Tool where
  "kube_tool = \<lparr>Name = ''kubeconform'', CLI = ''kubeconform'', Version = ''>=0.6.0'',
                VersionArg = ''-v'', VersionPattern = [], Optional = False, Message = [],
                Source = ''config''\<rparr>"

definition slow :: "(string, string) platform" where
  "slow =
     \<lparr>LookPath = (\<lambda>c. Inr (''/usr/local/bin/'' @ c)),
      cmd_Run = (\<lambda>t cmd.
         if ctx cmd \<le> t then ([], Some ''context deadline exceeded'', t)
         else ([], Some ''signal: killed'', ctx cmd)),
      regexp_Compile = (\<lambda>p. Inl ''error parsing regexp''),
      NewConstraint = (\<lambda>s. Inr s),
      NewVersion = (\<lambda>s. Inr s),
      constraint_Check = (\<lambda>c v. True)\<rparr>"

definition slow_tool :: Tool where
  "slow_tool = \<lparr>Name = ''slow'', CLI = ''slow'', Version = ''>=1.0.0'', VersionArg = [],
                VersionPattern = [], Optional = False, Message = [], Source = ''config''\<rparr>"

section \<open>Strings and the heuristic\<close>



lemma Contains_sublist: "Contains s sub = sublist sub s"
  by (induction s) (auto simp: sublist_Cons_right)




section \<open>The default pattern\<close>

lemma dot_not_digit [simp]: "\<not> is_digit CHR ''.''"
  by (simp add: is_digit_def)

lemma digits_takeWhile: "digits x \<Longrightarrow> takeWhile is_digit (x @ r) = x @ takeWhile is_digit r"
  by (simp add: digits_def takeWhile_append2)

lemma digits_dropWhile: "digits x \<Longrightarrow> dropWhile is_digit (x @ r) = dropWhile is_digit r"
  by (simp add: digits_def dropWhile_append2)

lemma takeWhile_digits: "takeWhile is_digit s \<noteq> [] \<Longrightarrow> digits (takeWhile is_digit s)"
  by (auto simp: digits_def dest: set_takeWhileD)

lemma version_form_not_Nil: "version_form m \<Longrightarrow> m \<noteq> []"
  by (auto simp: version_form_def digits_def)

lemma versionRe_match_sound:
  assumes "versionRe_match s = Some m"
  shows "version_form m \<and> prefix m s"
proof -
  let ?d1 = "takeWhile is_digit s" and ?r1 = "dropWhile is_digit s"
  from assms have d1: "?d1 \<noteq> []"
    by (auto simp: versionRe_match_def Let_def split: if_splits)
  from assms d1 obtain r2 where r1: "?r1 = CHR ''.'' # r2"
    by (auto simp: versionRe_match_def Let_def split: if_splits list.splits)
  let ?d2 = "takeWhile is_digit r2" and ?r3 = "dropWhile is_digit r2"
  from assms d1 r1 have d2: "?d2 \<noteq> []"
    by (auto simp: versionRe_match_def Let_def split: if_splits list.splits)
  have s: "s = ?d1 @ CHR ''.'' # ?d2 @ ?r3"
    using r1 by (metis takeWhile_dropWhile_id)
  have D1: "digits ?d1" and D2: "digits ?d2"
    using d1 d2 by (simp_all add: takeWhile_digits)
  show ?thesis
  proof (cases "\<exists>r4. ?r3 = CHR ''.'' # r4 \<and> takeWhile is_digit r4 \<noteq> []")
    case True
    then obtain r4 where r3: "?r3 = CHR ''.'' # r4" and d3: "takeWhile is_digit r4 \<noteq> []"
      by blast
    let ?d3 = "takeWhile is_digit r4"
    from assms d1 r1 d2 r3 d3 have m: "m = ?d1 @ ''.'' @ ?d2 @ ''.'' @ ?d3"
      by (simp add: versionRe_match_def Let_def)
    have "s = ?d1 @ CHR ''.'' # ?d2 @ CHR ''.'' # ?d3 @ dropWhile is_digit r4"
      using s r3 by (metis takeWhile_dropWhile_id)
    then have "s = m @ dropWhile is_digit r4" using m by simp
    then have "prefix m s" by (metis prefixI)
    moreover have "version_form m"
      unfolding version_form_def using D1 D2 takeWhile_digits[OF d3] m by blast
    ultimately show ?thesis by blast
  next
    case False
    with assms d1 r1 d2 have m: "m = ?d1 @ ''.'' @ ?d2"
      by (auto simp: versionRe_match_def Let_def split: list.splits)
    have "s = m @ ?r3" using s m by simp
    then have "prefix m s" by (metis prefixI)
    moreover have "version_form m"
      unfolding version_form_def using D1 D2 m by blast
    ultimately show ?thesis by blast
  qed
qed

lemma digits_not_Nil: "digits x \<Longrightarrow> x \<noteq> []"
  by (simp add: digits_def)

lemma versionRe_match_two:
  assumes "digits x" "digits y"
  shows "\<exists>m. versionRe_match (x @ CHR ''.'' # y @ suf) = Some m \<and>
              length x + 1 + length y \<le> length m"
  using assms
  by (auto simp: versionRe_match_def Let_def digits_takeWhile digits_dropWhile digits_not_Nil
      split: list.splits)

lemma versionRe_match_three:
  assumes "digits x" "digits y" "digits z"
  shows "\<exists>m. versionRe_match (x @ CHR ''.'' # y @ CHR ''.'' # z @ suf) = Some m \<and>
              length x + 1 + length y + 1 + length z \<le> length m"
  using assms
  by (auto simp: versionRe_match_def Let_def digits_takeWhile digits_dropWhile digits_not_Nil
      split: list.splits)

lemma versionRe_match_complete:
  assumes "prefix m' s" "version_form m'"
  shows "\<exists>m. versionRe_match s = Some m \<and> length m' \<le> length m"
proof -
  from assms(1) obtain suf where s: "s = m' @ suf" by (auto simp: prefix_def)
  from assms(2) obtain x y where xy: "digits x" "digits y" and
    m': "m' = x @ ''.'' @ y \<or> (\<exists>z. digits z \<and> m' = x @ ''.'' @ y @ ''.'' @ z)"
    by (auto simp: version_form_def)
  from m' show ?thesis
  proof
    assume e: "m' = x @ ''.'' @ y"
    with s have "s = x @ CHR ''.'' # y @ suf" by simp
    with versionRe_match_two[OF xy, of suf] e show ?thesis by auto
  next
    assume "\<exists>z. digits z \<and> m' = x @ ''.'' @ y @ ''.'' @ z"
    then obtain z where z: "digits z" and e: "m' = x @ ''.'' @ y @ ''.'' @ z" by blast
    with s have "s = x @ CHR ''.'' # y @ CHR ''.'' # z @ suf" by simp
    with versionRe_match_three[OF xy z, of suf] e show ?thesis by auto
  qed
qed

lemma FindString_first:
  "(versionRe_FindString line = [] \<longrightarrow> \<not> has_match line) \<and>
   (versionRe_FindString line \<noteq> [] \<longrightarrow> first_match line (versionRe_FindString line))"
proof (induction line)
  case Nil
  then show ?case by (auto simp: has_match_def dest: version_form_not_Nil)
next
  case (Cons c s)
  show ?case
  proof (cases "versionRe_match (c # s)")
    case (Some m)
    from versionRe_match_sound[OF Some] have vf: "version_form m" and pf: "prefix m (c # s)"
      by simp_all
    have "\<forall>j m'. prefix m' (drop j (c # s)) \<and> version_form m' \<longrightarrow>
            0 \<le> j \<and> (j = 0 \<longrightarrow> length m' \<le> length m)"
      using versionRe_match_complete[of _ "c # s"] Some by fastforce
    moreover have "prefix m (drop 0 (c # s))" using pf by simp
    ultimately have "first_match (c # s) m"
      unfolding first_match_def using vf by blast
    with Some vf show ?thesis by (simp add: version_form_not_Nil)
  next
    case None
    have no0: "\<not> (prefix m' (c # s) \<and> version_form m')" for m'
      using versionRe_match_complete[of m' "c # s"] None by auto
    have shift: "prefix m' (drop j (c # s)) \<and> version_form m' \<Longrightarrow>
                 \<exists>j'. j = Suc j' \<and> prefix m' (drop j' s)" for j m'
      using no0[of m'] by (cases j) auto
    show ?thesis
    proof (cases "versionRe_FindString s = []")
      case True
      with Cons have "\<not> has_match s" by simp
      then have "\<not> has_match (c # s)"
        unfolding has_match_def using shift by blast
      with True None show ?thesis by simp
    next
      case False
      with Cons have "first_match s (versionRe_FindString s)" by simp
      then obtain i where i: "prefix (versionRe_FindString s) (drop i s)"
        "version_form (versionRe_FindString s)"
        "\<forall>j m'. prefix m' (drop j s) \<and> version_form m' \<longrightarrow>
           i \<le> j \<and> (j = i \<longrightarrow> length m' \<le> length (versionRe_FindString s))"
        unfolding first_match_def by blast
      have "\<forall>j m'. prefix m' (drop j (c # s)) \<and> version_form m' \<longrightarrow>
           Suc i \<le> j \<and> (j = Suc i \<longrightarrow> length m' \<le> length (versionRe_FindString s))"
      proof (intro allI impI)
        fix j m' assume a: "prefix m' (drop j (c # s)) \<and> version_form m'"
        from shift[OF a] obtain j' where j': "j = Suc j'" "prefix m' (drop j' s)" by blast
        with a i(3) show "Suc i \<le> j \<and> (j = Suc i \<longrightarrow> length m' \<le> length (versionRe_FindString s))"
          by auto
      qed
      moreover have "prefix (versionRe_FindString s) (drop (Suc i) (c # s))"
        using i(1) by simp
      ultimately have "first_match (c # s) (versionRe_FindString s)"
        unfolding first_match_def using i(2) by blast
      with False None show ?thesis by simp
    qed
  qed
qed

lemma first_match_unique:
  assumes "first_match line m" "first_match line m'"
  shows "m = m'"
proof -
  from assms(1) obtain i where i: "prefix m (drop i line)" "version_form m"
    "\<forall>j m'. prefix m' (drop j line) \<and> version_form m' \<longrightarrow>
           i \<le> j \<and> (j = i \<longrightarrow> length m' \<le> length m)"
    unfolding first_match_def by blast
  from assms(2) obtain i' where i': "prefix m' (drop i' line)" "version_form m'"
    "\<forall>j m''. prefix m'' (drop j line) \<and> version_form m'' \<longrightarrow>
           i' \<le> j \<and> (j = i' \<longrightarrow> length m'' \<le> length m')"
    unfolding first_match_def by blast
  from i(1,2) i'(3) have "i' \<le> i" by blast
  moreover from i'(1,2) i(3) have "i \<le> i'" by blast
  ultimately have e: "i = i'" by simp
  with i(1,2) i'(3) have "length m \<le> length m'" by blast
  moreover from e i'(1,2) i(3) have "length m' \<le> length m" by blast
  ultimately have "length m = length m'" by simp
  with i(1) i'(1) e show ?thesis
    by (metis prefix_same_cases prefix_length_le prefix_order.antisym prefix_def append_eq_append_conv append_Nil2)
qed

lemma first_match_has: "first_match line m \<Longrightarrow> has_match line"
  unfolding first_match_def has_match_def by blast

section \<open>The check of one tool\<close>

lemma Status_distinct [simp]:
  "StatusPass \<noteq> StatusFail" "StatusFail \<noteq> StatusPass"
  "StatusPass \<noteq> StatusOptionalMissing" "StatusOptionalMissing \<noteq> StatusPass"
  "StatusFail \<noteq> StatusOptionalMissing" "StatusOptionalMissing \<noteq> StatusFail"
  by (simp_all add: StatusPass_def StatusFail_def StatusOptionalMissing_def)

lemma checkVersion_cases:
  "checkVersion sys tool result w =
     (case executeVersionCommand sys tool w of
        (Inl err, w') \<Rightarrow>
          (result\<lparr>Status := (if Optional tool then StatusOptionalMissing else StatusFail),
                  Error := Some err\<rparr>, w')
      | (Inr out, w') \<Rightarrow>
          (case extractVersion (regexp_Compile sys) out (VersionPattern tool) of
             Inl err \<Rightarrow>
               (result\<lparr>Output := out, Status := StatusFail,
                       Error := Some (''failed to extract version: '' @ err)\<rparr>, w')
           | Inr v \<Rightarrow>
               (case NewConstraint sys (Version tool) of
                  Inl err \<Rightarrow>
                    (result\<lparr>Output := out, InstalledVersion := v, Status := StatusFail,
                            Error := Some (''invalid version constraint '' @ [CHR 0x27]
                                           @ Version tool @ [CHR 0x27] @ '': '' @ err)\<rparr>, w')
                | Inr c \<Rightarrow>
                    (case NewVersion sys v of
                       Inl err \<Rightarrow>
                         (result\<lparr>Output := out, InstalledVersion := v, Status := StatusFail,
                                 Error := Some (''failed to parse installed version '' @ [CHR 0x27]
                                                @ v @ [CHR 0x27] @ '': '' @ err)\<rparr>, w')
                     | Inr iv \<Rightarrow>
                         (result\<lparr>Output := out, InstalledVersion := v,
                              Status := (if constraint_Check sys c iv then StatusPass
                                         else if Optional tool then StatusOptionalMissing
                                         else StatusFail)\<rparr>, w')))))"
  by (simp add: checkVersion_def Let_def split: prod.splits sum.splits)

lemma Check_Tool: "Tool (fst (Check sys tool w)) = tool"
  by (auto simp: Check_def checkVersion_cases checkExistence_def new_Result_def Let_def
      split: prod.splits sum.splits)

lemma Check_Status:
  "Status (fst (Check sys tool w)) \<in> {StatusPass, StatusFail, StatusOptionalMissing}"
  by (auto simp: Check_def checkVersion_cases checkExistence_def new_Result_def Let_def
      split: prod.splits sum.splits)

lemma Check_OptionalMissing:
  "Status (fst (Check sys tool w)) = StatusOptionalMissing \<Longrightarrow> Optional tool"
  by (auto simp: Check_def checkVersion_cases checkExistence_def new_Result_def Let_def
      split: prod.splits sum.splits if_splits)

section \<open>Probes and the fan-out\<close>

lemma runCommand_eq:
  "runCommand sys cmd w =
     (case cmd_Run sys (now w) cmd of (out, err, t) \<Rightarrow>
        ((out, err),
         \<lparr>now = t,
          runs = runs w @ [\<lparr>ev_cmd = cmd, ev_start = now w, ev_output = out, ev_err = err\<rparr>]\<rparr>))"
  by (auto simp: runCommand_def Let_def split: prod.splits)

lemma try_args_trace:
  "try_args sys c tool argss w = (r, w') \<Longrightarrow>
     \<exists>evs. runs w' = runs w @ evs \<and>
       map ev_cmd evs = map (CommandContext c (CLI tool)) (take (length evs) argss) \<and>
       (\<forall>e \<in> set (butlast evs). \<not> qualifies (ev_output e)) \<and>
       (evs \<noteq> [] \<longrightarrow> ev_start (hd evs) = now w) \<and>
       (case r of
          Some out \<Rightarrow> evs \<noteq> [] \<and> ev_output (last evs) = out \<and> qualifies out
        | None \<Rightarrow> length evs = length argss \<and> (\<forall>e \<in> set evs. \<not> qualifies (ev_output e)))"
proof (induction argss arbitrary: w)
  case Nil
  then show ?case by auto
next
  case (Cons as rest)
  obtain out err t where run: "cmd_Run sys (now w) (CommandContext c (CLI tool) as) = (out, err, t)"
    by (cases "cmd_Run sys (now w) (CommandContext c (CLI tool) as)") auto
  let ?ev = "\<lparr>ev_cmd = CommandContext c (CLI tool) as, ev_start = now w, ev_output = out,
              ev_err = err\<rparr>"
  let ?w1 = "\<lparr>now = t, runs = runs w @ [?ev]\<rparr>"
  show ?case
  proof (cases "qualifies out")
    case True
    with Cons.prems run have "r = Some out" "w' = ?w1"
      by (auto simp: runCommand_eq qualifies_def Let_def)
    with True show ?thesis
      by (intro exI[of _ "[?ev]"]) simp
  next
    case False
    with Cons.prems run have "try_args sys c tool rest ?w1 = (r, w')"
      by (auto simp: runCommand_eq qualifies_def Let_def)
    from Cons.IH[OF this] obtain evs where
      1: "runs w' = runs ?w1 @ evs" and
      2: "map ev_cmd evs = map (CommandContext c (CLI tool)) (take (length evs) rest)" and
      3: "\<forall>e \<in> set (butlast evs). \<not> qualifies (ev_output e)" and
      4: "case r of
            Some out \<Rightarrow> evs \<noteq> [] \<and> ev_output (last evs) = out \<and> qualifies out
          | None \<Rightarrow> length evs = length rest \<and> (\<forall>e \<in> set evs. \<not> qualifies (ev_output e))"
      by blast
    have b: "\<forall>e \<in> set (butlast (?ev # evs)). \<not> qualifies (ev_output e)"
      using 3 False 4 by (cases evs) (auto split: option.splits)
    show ?thesis
      using 1 2 4 False b
      by (intro exI[of _ "?ev # evs"]) (auto split: option.splits)
  qed
qed

lemma check_filter_all2:
  "check_filter sys tools names results w = (rs, w') \<Longrightarrow>
     \<exists>new. rs = results @ new \<and>
       list_all2 (\<lambda>n r. case map_of tools n of
                           None \<Rightarrow> r = not_in_config n
                         | Some t \<Rightarrow> \<exists>wi. r = fst (Check sys t wi)) names new"
proof (induction names arbitrary: results w)
  case Nil
  then show ?case by simp
next
  case (Cons n names)
  show ?case
  proof (cases "map_of tools n")
    case None
    with Cons.prems have "check_filter sys tools names (results @ [not_in_config n]) w = (rs, w')"
      by simp
    from Cons.IH[OF this] None show ?thesis by auto
  next
    case (Some t)
    obtain r w1 where c: "Check sys t w = (r, w1)" by (cases "Check sys t w") auto
    with Some Cons.prems have "check_filter sys tools names (results @ [r]) w1 = (rs, w')"
      by simp
    from Cons.IH[OF this] obtain new where
      "rs = (results @ [r]) @ new" and
      "list_all2 (\<lambda>n r. case map_of tools n of
                           None \<Rightarrow> r = not_in_config n
                         | Some t \<Rightarrow> \<exists>wi. r = fst (Check sys t wi)) names new"
      by blast
    moreover have "\<exists>wi. r = fst (Check sys t wi)" using c by (metis fst_conv)
    ultimately show ?thesis using Some
      by (intro exI[of _ "r # new"]) simp
  qed
qed

lemma check_range_all2:
  "check_range sys tools results w = (rs, w') \<Longrightarrow>
     \<exists>new. rs = results @ new \<and>
       list_all2 (\<lambda>nt r. \<exists>wi. r = fst (Check sys (snd nt) wi)) tools new"
proof (induction tools arbitrary: results w)
  case Nil
  then show ?case by simp
next
  case (Cons nt tools)
  obtain n t where nt: "nt = (n, t)" by (cases nt) auto
  obtain r w1 where c: "Check sys t w = (r, w1)" by (cases "Check sys t w") auto
  with nt Cons.prems have "check_range sys tools (results @ [r]) w1 = (rs, w')"
    by simp
  from Cons.IH[OF this] obtain new where
    "rs = (results @ [r]) @ new" and
    "list_all2 (\<lambda>nt r. \<exists>wi. r = fst (Check sys (snd nt) wi)) tools new"
    by blast
  moreover have "\<exists>wi. r = fst (Check sys t wi)" using c by (metis fst_conv)
  ultimately show ?case using nt
    by (intro exI[of _ "r # new"]) simp
qed

lemma not_in_config_phrase:
  "Contains (''tool '' @ [CHR 0x27] @ n @ [CHR 0x27] @ '' not found in configuration'')
     ''not found in configuration''"
proof -
  have "sublist ''not found in configuration''
          ((''tool '' @ [CHR 0x27] @ n @ [CHR 0x27] @ '' '') @ ''not found in configuration'' @ [])"
    by (rule sublist_appendI)
  then show ?thesis by (simp add: Contains_sublist)
qed

lemma CheckAll_results:
  assumes "r \<in> set (fst (CheckAll sys tools names w))"
  shows "(\<exists>n. r = not_in_config n) \<or> (\<exists>t wi. r = fst (Check sys t wi))"
proof (cases "names = []")
  case True
  obtain rs w' where e: "check_range sys tools [] w = (rs, w')"
    by (cases "check_range sys tools [] w") auto
  from check_range_all2[OF e] have
    "list_all2 (\<lambda>nt r. \<exists>wi. r = fst (Check sys (snd nt) wi)) tools rs" by simp
  moreover from assms True e have "r \<in> set rs" by (simp add: CheckAll_def)
  ultimately obtain i where "i < length rs" "rs ! i = r"
      "\<exists>wi. rs ! i = fst (Check sys (snd (tools ! i)) wi)"
    by (auto simp: in_set_conv_nth list_all2_conv_all_nth)
  then show ?thesis by blast
next
  case False
  obtain rs w' where e: "check_filter sys tools names [] w = (rs, w')"
    by (cases "check_filter sys tools names [] w") auto
  from check_filter_all2[OF e] have
    a: "list_all2 (\<lambda>n r. case map_of tools n of
                           None \<Rightarrow> r = not_in_config n
                         | Some t \<Rightarrow> \<exists>wi. r = fst (Check sys t wi)) names rs" by simp
  from assms False e have "r \<in> set rs" by (simp add: CheckAll_def)
  then obtain i where i: "i < length rs" "rs ! i = r" by (auto simp: in_set_conv_nth)
  with a have "case map_of tools (names ! i) of
                           None \<Rightarrow> r = not_in_config (names ! i)
                         | Some t \<Rightarrow> \<exists>wi. r = fst (Check sys t wi)"
    by (auto simp: list_all2_conv_all_nth)
  then show ?thesis by (auto split: option.splits)
qed

lemmas eval_defs =
  Check_def checkVersion_def checkExistence_def new_Result_def executeVersionCommand_def
  commonVersionArgs_def runCommand_def CommandContext_def extractVersion_def
  looksLikeVersionOutput_def TrimSpace_def ToLower_def rejectPatterns_def
  is_space_def is_digit_def to_lower_def versionRe_match_def Second_def Let_def
  StatusPass_def StatusFail_def StatusOptionalMissing_def



lemma scan_lines_Cons:
  "scan_lines (l # ls) =
     (if versionRe_FindString (TrimSpace l) \<noteq> [] then Inr (versionRe_FindString (TrimSpace l))
      else scan_lines ls)"
  by (simp add: Let_def)

lemma scan_lines_Inl:
  "scan_lines ls = Inl e \<longleftrightarrow>
     e = ''no version found in output'' \<and> (\<forall>l \<in> set ls. \<not> has_match (TrimSpace l))"
proof (induction ls)
  case Nil
  show ?case by auto
next
  case (Cons l ls)
  show ?case
  proof (cases "versionRe_FindString (TrimSpace l) = []")
    case True
    with FindString_first[of "TrimSpace l"] have "\<not> has_match (TrimSpace l)" by simp
    with True Cons show ?thesis by (simp add: scan_lines_Cons del: scan_lines.simps)
  next
    case False
    with FindString_first[of "TrimSpace l"] have "has_match (TrimSpace l)"
      by (auto dest: first_match_has)
    with False show ?thesis by (auto simp: scan_lines_Cons simp del: scan_lines.simps)
  qed
qed

lemma scan_lines_Inr:
  "scan_lines ls = Inr v \<longleftrightarrow>
     (\<exists>pre l post. ls = pre @ l # post \<and> (\<forall>p \<in> set pre. \<not> has_match (TrimSpace p)) \<and>
        first_match (TrimSpace l) v)"
proof (induction ls)
  case Nil
  show ?case by simp
next
  case (Cons a ls)
  let ?R = "\<lambda>xs. \<exists>pre l post. xs = pre @ l # post \<and>
              (\<forall>p \<in> set pre. \<not> has_match (TrimSpace p)) \<and> first_match (TrimSpace l) v"
  show ?case
  proof (cases "versionRe_FindString (TrimSpace a) = []")
    case True
    with FindString_first[of "TrimSpace a"] have nm: "\<not> has_match (TrimSpace a)" by simp
    have "?R (a # ls) \<longleftrightarrow> ?R ls"
    proof
      assume "?R (a # ls)"
      then obtain pre l post where e: "a # ls = pre @ l # post"
        and p: "\<forall>p \<in> set pre. \<not> has_match (TrimSpace p)" and f: "first_match (TrimSpace l) v"
        by blast
      show "?R ls"
      proof (cases pre)
        case Nil
        with e have "l = a" by simp
        with f nm show ?thesis by (auto dest: first_match_has)
      next
        case (Cons b pre')
        with e have "ls = pre' @ l # post" by simp
        moreover from Cons p have "\<forall>p \<in> set pre'. \<not> has_match (TrimSpace p)" by simp
        ultimately show ?thesis using f by blast
      qed
    next
      assume "?R ls"
      then obtain pre l post where e: "ls = pre @ l # post"
        and p: "\<forall>p \<in> set pre. \<not> has_match (TrimSpace p)" and f: "first_match (TrimSpace l) v"
        by blast
      from e have "a # ls = (a # pre) @ l # post" by simp
      moreover from p nm have "\<forall>p \<in> set (a # pre). \<not> has_match (TrimSpace p)" by simp
      ultimately show "?R (a # ls)" using f by blast
    qed
    with True Cons show ?thesis by (simp add: scan_lines_Cons del: scan_lines.simps)
  next
    case False
    with FindString_first[of "TrimSpace a"]
    have fm: "first_match (TrimSpace a) (versionRe_FindString (TrimSpace a))" by simp
    have "?R (a # ls) \<longleftrightarrow> v = versionRe_FindString (TrimSpace a)"
    proof
      assume "?R (a # ls)"
      then obtain pre l post where e: "a # ls = pre @ l # post"
        and p: "\<forall>p \<in> set pre. \<not> has_match (TrimSpace p)" and f: "first_match (TrimSpace l) v"
        by blast
      show "v = versionRe_FindString (TrimSpace a)"
      proof (cases pre)
        case Nil
        with e have "l = a" by simp
        with f fm show ?thesis by (auto dest: first_match_unique)
      next
        case (Cons b pre')
        with e have "b = a" by simp
        with Cons p have "\<not> has_match (TrimSpace a)" by simp
        with fm show ?thesis by (auto dest: first_match_has)
      qed
    next
      assume "v = versionRe_FindString (TrimSpace a)"
      with fm have "a # ls = [] @ a # ls \<and> (\<forall>p \<in> set []. \<not> has_match (TrimSpace p)) \<and>
                    first_match (TrimSpace a) v" by simp
      then show "?R (a # ls)" by blast
    qed
    with False show ?thesis by (auto simp: scan_lines_Cons simp del: scan_lines.simps)
  qed
qed

section \<open>The claims\<close>



text \<open>
  C6. Without a custom pattern, \<open>extractVersion\<close> goes through the lines from the top, trims
  each, and returns the first match of the first line that has one: the substring of the form
  \<open>X.Y\<close> or \<open>X.Y.Z\<close> that starts leftmost and is the longest there. It fails with
  \<open>no version found in output\<close> exactly when no line has such a substring. A line that is
  empty once trimmed has none, so that skipping it changes nothing.
\<close>

theorem extractVersion_default:
  "(extractVersion rc output [] = Inr v \<longleftrightarrow>
      (\<exists>pre l post. Split output CHR 0x0A = pre @ l # post \<and>
         (\<forall>p \<in> set pre. \<not> has_match (TrimSpace p)) \<and> first_match (TrimSpace l) v)) \<and>
   (extractVersion rc output [] = Inl e \<longleftrightarrow>
      e = ''no version found in output'' \<and>
      (\<forall>l \<in> set (Split output CHR 0x0A). \<not> has_match (TrimSpace l))) \<and>
   extractVersion rc ''Tool Name\<newline>Version 1.2.3\<newline>More info'' [] = Inr ''1.2.3''"
proof -
  have "extractVersion rc ''Tool Name\<newline>Version 1.2.3\<newline>More info'' [] = Inr ''1.2.3''"
    by (simp add: eval_defs)
  then show ?thesis
    by (simp only: extractVersion_def scan_lines_Inr scan_lines_Inl simp_thms if_False)
qed

theorem extractVersion_default_witness:
  "extractVersion (regexp_Compile lab) ''Tool Name\<newline>Version 1.2.3\<newline>More info'' [] = Inr ''1.2.3'' \<and>
   (\<exists>pre l post. Split ''Tool Name\<newline>Version 1.2.3\<newline>More info'' CHR 0x0A = pre @ l # post \<and>
      (\<forall>p \<in> set pre. \<not> has_match (TrimSpace p)) \<and> first_match (TrimSpace l) ''1.2.3'') \<and>
   extractVersion (regexp_Compile lab) ''no digits here'' [] = Inl ''no version found in output'' \<and>
   \<not> has_match (TrimSpace ''no digits here'')"
proof -
  let ?t = "''Tool Name\<newline>Version 1.2.3\<newline>More info''"
  have a: "extractVersion (regexp_Compile lab) ?t [] = Inr ''1.2.3''"
    by (simp add: eval_defs)
  have b: "extractVersion (regexp_Compile lab) ''no digits here'' [] = Inl ''no version found in output''"
    by (simp add: eval_defs)
  from a extractVersion_default[of "regexp_Compile lab" ?t "''1.2.3''"]
  have "\<exists>pre l post. Split ?t CHR 0x0A = pre @ l # post \<and>
      (\<forall>p \<in> set pre. \<not> has_match (TrimSpace p)) \<and> first_match (TrimSpace l) ''1.2.3''"
    by blast
  moreover from b extractVersion_default[of "regexp_Compile lab" "''no digits here''" _ "''no version found in output''"]
  have "\<forall>l \<in> set (Split ''no digits here'' CHR 0x0A). \<not> has_match (TrimSpace l)"
    by blast
  then have "\<not> has_match (TrimSpace ''no digits here'')" by simp
  ultimately show ?thesis using a b by blast
qed

lemmas lab_defs =
  lab_def go_tool_def make_tool_def jq_tool_def jq_exists_tool_def old_tool_def
  nightly_tool_def weird_tool_def typo_tool_def w0_def

lemma lab_probe_go:
  "executeVersionCommand lab go_tool w0 =
     (Inr ''go version go1.20.0 darwin/amd64\<newline>'',
      \<lparr>now = 2000,
       runs = [\<lparr>ev_cmd = \<lparr>ctx = 5000000000, name = ''go'', args = [''--version'']\<rparr>,
                ev_start = 0, ev_output = ''flag provided but not defined'',
                ev_err = Some ''exit status 2''\<rparr>,
               \<lparr>ev_cmd = \<lparr>ctx = 5000000000, name = ''go'', args = [''version'']\<rparr>,
                ev_start = 1000, ev_output = ''go version go1.20.0 darwin/amd64\<newline>'',
                ev_err = None\<rparr>]\<rparr>)"
  by (simp add: eval_defs lab_defs)

lemma lab_probe_typo:
  "fst (executeVersionCommand lab typo_tool w0) = Inr ''go version go1.20.0 darwin/amd64\<newline>''"
  by (simp add: eval_defs lab_defs)

lemma lab_probe_jq:
  "fst (executeVersionCommand lab jq_tool w0) = Inl ''jq: failed to get version''"
  by (simp add: eval_defs lab_defs)

lemma lab_probe_old:
  "fst (executeVersionCommand lab old_tool w0) = Inr ''old 1.19.0\<newline>''"
  by (simp add: eval_defs lab_defs)

lemma lab_probe_nightly:
  "fst (executeVersionCommand lab nightly_tool w0) = Inr ''nightly build 7.\<newline>''"
  by (simp add: eval_defs lab_defs)

lemma lab_probe_weird:
  "fst (executeVersionCommand lab weird_tool w0) = Inr ''weird 01.2\<newline>''"
  by (simp add: eval_defs lab_defs)

lemma lab_extract:
  "extractVersion rc ''go version go1.20.0 darwin/amd64\<newline>'' [] = Inr ''1.20.0''"
  "extractVersion rc ''old 1.19.0\<newline>'' [] = Inr ''1.19.0''"
  "extractVersion rc ''nightly build 7.\<newline>'' [] = Inl ''no version found in output''"
  "extractVersion rc ''weird 01.2\<newline>'' [] = Inr ''01.2''"
  by (simp_all add: eval_defs)

lemma lab_check_go:
  "fst (Check lab go_tool w0) =
     \<lparr>Tool = go_tool, Status = StatusPass, InstalledVersion = ''1.20.0'', Path = [],
      Output = ''go version go1.20.0 darwin/amd64\<newline>'', Error = None\<rparr>"
  unfolding Check_def checkVersion_def Let_def lab_probe_go
  by (simp add: lab_extract lab_defs new_Result_def StatusPass_def)

lemma lab_check_jq: "Status (fst (Check lab jq_tool w0)) = StatusOptionalMissing"
  using lab_probe_jq
  by (auto simp: Check_def checkVersion_cases Let_def jq_tool_def go_tool_def
      split: prod.splits sum.splits)

text \<open>
  C1. With a version constraint, the status is \<open>pass\<close> exactly when the probe returned a
  text, a version was extracted from it, the constraint and the version both parse, and the
  version satisfies the constraint; otherwise it is \<open>fail\<close> or \<open>optional_missing\<close>.
\<close>

theorem checkVersion_pass_iff:
  assumes "Version tool \<noteq> []"
  shows "(Status (fst (Check sys tool w)) = StatusPass \<longleftrightarrow>
           (\<exists>out v c iv.
              fst (executeVersionCommand sys tool w) = Inr out \<and>
              extractVersion (regexp_Compile sys) out (VersionPattern tool) = Inr v \<and>
              NewConstraint sys (Version tool) = Inr c \<and>
              NewVersion sys v = Inr iv \<and>
              constraint_Check sys c iv)) \<and>
         (Status (fst (Check sys tool w)) \<noteq> StatusPass \<longrightarrow>
            Status (fst (Check sys tool w)) = StatusFail \<or>
            Status (fst (Check sys tool w)) = StatusOptionalMissing)"
  using assms
  by (auto simp: Check_def checkVersion_cases Let_def split: prod.splits sum.splits)

theorem checkVersion_pass_iff_witness:
  "Version go_tool \<noteq> [] \<and>
   Status (fst (Check lab go_tool w0)) = StatusPass \<and>
   (\<exists>out v c iv.
      fst (executeVersionCommand lab go_tool w0) = Inr out \<and>
      extractVersion (regexp_Compile lab) out (VersionPattern go_tool) = Inr v \<and>
      NewConstraint lab (Version go_tool) = Inr c \<and>
      NewVersion lab v = Inr iv \<and>
      constraint_Check lab c iv) \<and>
   Version jq_tool \<noteq> [] \<and>
   Status (fst (Check lab jq_tool w0)) = StatusOptionalMissing"
proof -
  have h: "Version go_tool \<noteq> []" by (simp add: go_tool_def)
  have p: "Status (fst (Check lab go_tool w0)) = StatusPass" by (simp add: lab_check_go)
  have h': "Version jq_tool \<noteq> []" by (simp add: jq_tool_def go_tool_def)
  from checkVersion_pass_iff[OF h, of lab w0] p
  have "\<exists>out v c iv.
      fst (executeVersionCommand lab go_tool w0) = Inr out \<and>
      extractVersion (regexp_Compile lab) out (VersionPattern go_tool) = Inr v \<and>
      NewConstraint lab (Version go_tool) = Inr c \<and>
      NewVersion lab v = Inr iv \<and>
      constraint_Check lab c iv"
    by blast
  with h p h' lab_check_jq show ?thesis by blast
qed

text \<open>
  C2. For an optional tool, a command that is not found, a probe that fails and a constraint
  that is not satisfied give \<open>optional_missing\<close>. Whatever the optional flag, once the probe
  has returned a text, a failed extraction, a constraint that does not parse and an
  extracted version that does not parse give \<open>fail\<close>. The three failures are those of the
  stages that the check reaches: extraction runs on the text of a successful probe, and the
  constraint and the version are parsed after a successful extraction.
\<close>

theorem optional_downgrade:
  "(Optional tool \<longrightarrow>
      (Version tool = [] \<and> LookPath sys (CLI tool) = Inl e
         \<longrightarrow> Status (fst (Check sys tool w)) = StatusOptionalMissing) \<and>
      (Version tool \<noteq> [] \<and> fst (executeVersionCommand sys tool w) = Inl e
         \<longrightarrow> Status (fst (Check sys tool w)) = StatusOptionalMissing) \<and>
      (Version tool \<noteq> [] \<and> fst (executeVersionCommand sys tool w) = Inr out \<and>
       extractVersion (regexp_Compile sys) out (VersionPattern tool) = Inr v \<and>
       NewConstraint sys (Version tool) = Inr c \<and> NewVersion sys v = Inr iv \<and>
       \<not> constraint_Check sys c iv
         \<longrightarrow> Status (fst (Check sys tool w)) = StatusOptionalMissing)) \<and>
   (Version tool \<noteq> [] \<and> fst (executeVersionCommand sys tool w) = Inr out \<longrightarrow>
      (extractVersion (regexp_Compile sys) out (VersionPattern tool) = Inl e
         \<longrightarrow> Status (fst (Check sys tool w)) = StatusFail) \<and>
      (extractVersion (regexp_Compile sys) out (VersionPattern tool) = Inr v \<and>
       NewConstraint sys (Version tool) = Inl e
         \<longrightarrow> Status (fst (Check sys tool w)) = StatusFail) \<and>
      (extractVersion (regexp_Compile sys) out (VersionPattern tool) = Inr v \<and>
       NewVersion sys v = Inl e
         \<longrightarrow> Status (fst (Check sys tool w)) = StatusFail))"
  by (auto simp: Check_def checkVersion_cases checkExistence_def Let_def
      split: prod.splits sum.splits)

theorem optional_downgrade_witness:
  "Status (fst (Check lab jq_exists_tool w0)) = StatusOptionalMissing \<and>
   Status (fst (Check lab jq_tool w0)) = StatusOptionalMissing \<and>
   Status (fst (Check lab old_tool w0)) = StatusOptionalMissing \<and>
   Status (fst (Check lab nightly_tool w0)) = StatusFail \<and>
   Status (fst (Check lab typo_tool w0)) = StatusFail \<and>
   Status (fst (Check lab weird_tool w0)) = StatusFail \<and>
   Optional jq_exists_tool \<and> Optional jq_tool \<and> Optional old_tool \<and>
   Optional nightly_tool \<and> Optional typo_tool \<and> Optional weird_tool"
proof -
  have 1: "Status (fst (Check lab jq_exists_tool w0)) = StatusOptionalMissing"
    using optional_downgrade[where tool = jq_exists_tool and sys = lab and w = w0
        and e = "''executable file not found in $PATH''"]
    by (simp add: lab_defs)
  have 2: "Status (fst (Check lab jq_tool w0)) = StatusOptionalMissing"
    using optional_downgrade[where tool = jq_tool and sys = lab and w = w0
        and e = "''jq: failed to get version''"] lab_probe_jq
    by (simp add: jq_tool_def go_tool_def)
  have 3: "Status (fst (Check lab old_tool w0)) = StatusOptionalMissing"
    using optional_downgrade[where tool = old_tool and sys = lab and w = w0
        and out = "''old 1.19.0\<newline>''" and v = "''1.19.0''" and c = "''>=1.20.0''"
        and iv = "''1.19.0''"] lab_probe_old
    by (simp add: old_tool_def go_tool_def lab_def lab_extract)
  have 4: "Status (fst (Check lab nightly_tool w0)) = StatusFail"
    using optional_downgrade[where tool = nightly_tool and sys = lab and w = w0
        and out = "''nightly build 7.\<newline>''" and e = "''no version found in output''"]
      lab_probe_nightly
    by (simp add: nightly_tool_def go_tool_def lab_extract)
  have 5: "Status (fst (Check lab typo_tool w0)) = StatusFail"
    using optional_downgrade[where tool = typo_tool and sys = lab and w = w0
        and out = "''go version go1.20.0 darwin/amd64\<newline>''" and v = "''1.20.0''"
        and e = "''improper constraint''"] lab_probe_typo
    by (simp add: typo_tool_def go_tool_def lab_def lab_extract)
  have 6: "Status (fst (Check lab weird_tool w0)) = StatusFail"
    using optional_downgrade[where tool = weird_tool and sys = lab and w = w0
        and out = "''weird 01.2\<newline>''" and v = "''01.2''"
        and e = "''Invalid Semantic Version''"] lab_probe_weird
    by (simp add: weird_tool_def go_tool_def lab_def lab_extract)
  have "Optional jq_exists_tool \<and> Optional jq_tool \<and> Optional old_tool \<and>
        Optional nightly_tool \<and> Optional typo_tool \<and> Optional weird_tool"
    by (simp add: lab_defs)
  with 1 2 3 4 5 6 show ?thesis by blast
qed

text \<open>
  C8. Without a version constraint the check is the lookup of the command on the search
  path and nothing else: found, the result is \<open>pass\<close> with the path; not found, it is \<open>fail\<close>,
  or \<open>optional_missing\<close> for an optional tool, with the reason \<open><command>: command not found\<close>.
  The installed version and the output stay empty, and the world is returned as it was: no
  process was run.
\<close>

theorem existence_check:
  assumes "Version tool = []"
  shows "Check sys tool w =
           ((case LookPath sys (CLI tool) of
               Inr path \<Rightarrow>
                 \<lparr>Tool = tool, Status = StatusPass, InstalledVersion = [], Path = path,
                  Output = [], Error = None\<rparr>
             | Inl e \<Rightarrow>
                 \<lparr>Tool = tool,
                  Status = (if Optional tool then StatusOptionalMissing else StatusFail),
                  InstalledVersion = [], Path = [], Output = [],
                  Error = Some (CLI tool @ '': command not found'')\<rparr>), w)"
  using assms
  by (simp add: Check_def checkExistence_def new_Result_def split: sum.splits)

theorem existence_check_witness:
  "Version make_tool = [] \<and>
   Check lab make_tool w0 =
     (\<lparr>Tool = make_tool, Status = StatusPass, InstalledVersion = [], Path = ''/usr/bin/go'',
       Output = [], Error = None\<rparr>, w0) \<and>
   Version jq_exists_tool = [] \<and>
   Check lab jq_exists_tool w0 =
     (\<lparr>Tool = jq_exists_tool, Status = StatusOptionalMissing, InstalledVersion = [], Path = [],
       Output = [], Error = Some ''jq: command not found''\<rparr>, w0)"
proof -
  have h1: "Version make_tool = []" by (simp add: lab_defs)
  have h2: "Version jq_exists_tool = []" by (simp add: lab_defs)
  have "Check lab make_tool w0 =
     (\<lparr>Tool = make_tool, Status = StatusPass, InstalledVersion = [], Path = ''/usr/bin/go'',
       Output = [], Error = None\<rparr>, w0)"
    using existence_check[OF h1, of lab w0] by (simp add: lab_defs)
  moreover have "Check lab jq_exists_tool w0 =
     (\<lparr>Tool = jq_exists_tool, Status = StatusOptionalMissing, InstalledVersion = [], Path = [],
       Output = [], Error = Some ''jq: command not found''\<rparr>, w0)"
    using existence_check[OF h2, of lab w0] by (simp add: lab_defs)
  ultimately show ?thesis using h1 h2 by blast
qed

lemma not_in_config_name:
  "Contains (''tool '' @ [CHR 0x27] @ n @ [CHR 0x27] @ '' not found in configuration'') n"
proof -
  have "sublist n ((''tool '' @ [CHR 0x27]) @ n @ ([CHR 0x27] @ '' not found in configuration''))"
    by (rule sublist_appendI)
  then show ?thesis by (simp add: Contains_sublist)
qed

text \<open>
  C7. With a non-empty list of requested names, \<open>CheckAll\<close> returns one result for each
  name, in the order of the list: for a name that the configuration has, a result of \<open>Check\<close>
  on its tool; for a name that it does not have, the synthetic result, whose status is \<open>fail\<close>
  and whose reason names the tool and contains \<open>not found in configuration\<close>. With an empty
  list it returns one result of \<open>Check\<close> for every entry of the configuration, whatever the
  status of the others.
\<close>

theorem CheckAll_outcomes:
  "(names \<noteq> [] \<longrightarrow>
      list_all2 (\<lambda>n r. case map_of tools n of
                          None \<Rightarrow> r = not_in_config n
                        | Some t \<Rightarrow> \<exists>wi. r = fst (Check sys t wi))
        names (fst (CheckAll sys tools names w))) \<and>
   (names = [] \<longrightarrow>
      list_all2 (\<lambda>nt r. \<exists>wi. r = fst (Check sys (snd nt) wi))
        tools (fst (CheckAll sys tools names w))) \<and>
   Status (not_in_config n) = StatusFail \<and>
   (\<exists>e. Error (not_in_config n) = Some e \<and> Contains e ''not found in configuration'' \<and>
        Contains e n)"
proof -
  obtain rs w' where f: "check_filter sys tools names [] w = (rs, w')"
    by (cases "check_filter sys tools names [] w") auto
  obtain rs2 w2 where g: "check_range sys tools [] w = (rs2, w2)"
    by (cases "check_range sys tools [] w") auto
  have a: "names \<noteq> [] \<longrightarrow>
      list_all2 (\<lambda>n r. case map_of tools n of
                          None \<Rightarrow> r = not_in_config n
                        | Some t \<Rightarrow> \<exists>wi. r = fst (Check sys t wi))
        names (fst (CheckAll sys tools names w))"
    using check_filter_all2[OF f] f by (simp add: CheckAll_def)
  have b: "names = [] \<longrightarrow>
      list_all2 (\<lambda>nt r. \<exists>wi. r = fst (Check sys (snd nt) wi))
        tools (fst (CheckAll sys tools names w))"
    using check_range_all2[OF g] g by (simp add: CheckAll_def)
  have c: "Status (not_in_config n) = StatusFail"
    by (simp add: not_in_config_def)
  have d: "\<exists>e. Error (not_in_config n) = Some e \<and> Contains e ''not found in configuration'' \<and>
        Contains e n"
    using not_in_config_phrase[of n] not_in_config_name[of n]
    by (simp add: not_in_config_def)
  from a b c d show ?thesis by blast
qed

theorem CheckAll_outcomes_witness:
  "[''unknown''] \<noteq> [] \<and>
   fst (CheckAll lab [(''go'', go_tool)] [''unknown''] w0) = [not_in_config ''unknown''] \<and>
   Status (not_in_config ''unknown'') = StatusFail \<and>
   Error (not_in_config ''unknown'') = Some ''tool 'unknown' not found in configuration'' \<and>
   length (fst (CheckAll lab [(''go'', go_tool)] [] w0)) = 1"
proof -
  note t = CheckAll_outcomes[where names = "[''unknown'']" and tools = "[(''go'', go_tool)]"
      and sys = lab and w = w0 and n = "''unknown''"]
  from t have "list_all2 (\<lambda>n r. case map_of [(''go'', go_tool)] n of
                          None \<Rightarrow> r = not_in_config n
                        | Some t \<Rightarrow> \<exists>wi. r = fst (Check lab t wi))
        [''unknown''] (fst (CheckAll lab [(''go'', go_tool)] [''unknown''] w0))"
    by blast
  then have a: "fst (CheckAll lab [(''go'', go_tool)] [''unknown''] w0) = [not_in_config ''unknown'']"
    by (auto simp: list_all2_Cons1)
  from t have b: "Status (not_in_config ''unknown'') = StatusFail" by blast
  have c: "Error (not_in_config ''unknown'') = Some ''tool 'unknown' not found in configuration''"
    by (simp add: not_in_config_def)
  from CheckAll_outcomes[where names = "[]" and tools = "[(''go'', go_tool)]"
      and sys = lab and w = w0 and n = "''unknown''"]
  have "list_all2 (\<lambda>nt r. \<exists>wi. r = fst (Check lab (snd nt) wi))
        [(''go'', go_tool)] (fst (CheckAll lab [(''go'', go_tool)] [] w0))"
    by blast
  then have d: "length (fst (CheckAll lab [(''go'', go_tool)] [] w0)) = 1"
    by (auto dest: list_all2_lengthD)
  from a b c d show ?thesis by simp
qed

text \<open>
  C10. The status of every result of \<open>Check\<close> and of \<open>CheckAll\<close> is one of \<open>pass\<close>, \<open>fail\<close>
  and \<open>optional_missing\<close>, and it is \<open>optional_missing\<close> only for a tool whose optional flag
  is set. The synthetic result for a name that the configuration does not have is \<open>fail\<close>, and
  its tool is not optional.
\<close>

theorem status_invariant:
  "Status (fst (Check sys tool w)) \<in> {StatusPass, StatusFail, StatusOptionalMissing} \<and>
   (Status (fst (Check sys tool w)) = StatusOptionalMissing \<longrightarrow> Optional tool) \<and>
   (\<forall>r \<in> set (fst (CheckAll sys tools names w)).
      Status r \<in> {StatusPass, StatusFail, StatusOptionalMissing} \<and>
      (Status r = StatusOptionalMissing \<longrightarrow> Optional (Tool r))) \<and>
   Status (not_in_config n) = StatusFail \<and> \<not> Optional (Tool (not_in_config n))"
proof -
  have "Status r \<in> {StatusPass, StatusFail, StatusOptionalMissing} \<and>
        (Status r = StatusOptionalMissing \<longrightarrow> Optional (Tool r))"
    if "r \<in> set (fst (CheckAll sys tools names w))" for r
  proof -
    from CheckAll_results[OF that]
    consider m where "r = not_in_config m" | t wi where "r = fst (Check sys t wi)"
      by blast
    then show ?thesis
    proof cases
      case 1
      then show ?thesis by (simp add: not_in_config_def)
    next
      case 2
      with Check_Status[of sys t wi] Check_OptionalMissing[of sys t wi] Check_Tool[of sys t wi]
      show ?thesis by auto
    qed
  qed
  moreover have "Status (not_in_config n) = StatusFail \<and> \<not> Optional (Tool (not_in_config n))"
    by (simp add: not_in_config_def)
  ultimately show ?thesis
    using Check_Status[of sys tool w] Check_OptionalMissing[of sys tool w] by blast
qed

theorem status_invariant_witness:
  "Status (fst (Check lab jq_tool w0)) = StatusOptionalMissing \<and> Optional jq_tool \<and>
   Status (fst (Check lab go_tool w0)) = StatusPass \<and>
   not_in_config ''unknown'' \<in> set (fst (CheckAll lab [(''go'', go_tool)] [''unknown''] w0)) \<and>
   Status (not_in_config ''unknown'') = StatusFail \<and>
   Status (not_in_config ''unknown'') \<noteq> StatusOptionalMissing"
proof -
  note t = status_invariant[where sys = lab and tool = jq_tool and w = w0
      and tools = "[(''go'', go_tool)]" and names = "[''unknown'']" and n = "''unknown''"]
  from t lab_check_jq have a: "Optional jq_tool" by blast
  have b: "Status (fst (Check lab go_tool w0)) = StatusPass" by (simp add: lab_check_go)
  have c: "not_in_config ''unknown'' \<in> set (fst (CheckAll lab [(''go'', go_tool)] [''unknown''] w0))"
    by (simp add: CheckAll_def)
  from t have d: "Status (not_in_config ''unknown'') = StatusFail" by blast
  then have "Status (not_in_config ''unknown'') \<noteq> StatusOptionalMissing" by simp
  with a b c d lab_check_jq show ?thesis by blast
qed

lemma smart_guess_trace:
  assumes "VersionArg tool = []"
  shows "\<exists>evs. runs (snd (executeVersionCommand sys tool w)) = runs w @ evs \<and>
           map ev_cmd evs = map (CommandContext (now w + 5 * Second) (CLI tool))
                                (take (length evs) commonVersionArgs) \<and>
           (\<forall>e \<in> set (butlast evs). \<not> qualifies (ev_output e)) \<and>
           (evs \<noteq> [] \<longrightarrow> ev_start (hd evs) = now w) \<and>
           (case fst (executeVersionCommand sys tool w) of
              Inr out \<Rightarrow> evs \<noteq> [] \<and> ev_output (last evs) = out \<and> qualifies out
            | Inl err \<Rightarrow> err = CLI tool @ '': failed to get version'' \<and>
                length evs = length commonVersionArgs \<and>
                (\<forall>e \<in> set evs. \<not> qualifies (ev_output e)))"
proof -
  let ?c = "now w + 5 * Second"
  obtain r w' where t: "try_args sys ?c tool commonVersionArgs w = (r, w')"
    by (cases "try_args sys ?c tool commonVersionArgs w") auto
  from assms t have e: "executeVersionCommand sys tool w =
      ((case r of Some out \<Rightarrow> Inr out | None \<Rightarrow> Inl (CLI tool @ '': failed to get version'')), w')"
    by (simp add: executeVersionCommand_def Let_def split: option.splits)
  from try_args_trace[OF t] obtain evs where
    "runs w' = runs w @ evs" and
    "map ev_cmd evs = map (CommandContext ?c (CLI tool)) (take (length evs) commonVersionArgs)" and
    "\<forall>e \<in> set (butlast evs). \<not> qualifies (ev_output e)" and
    "evs \<noteq> [] \<longrightarrow> ev_start (hd evs) = now w" and
    "case r of
       Some out \<Rightarrow> evs \<noteq> [] \<and> ev_output (last evs) = out \<and> qualifies out
     | None \<Rightarrow> length evs = length commonVersionArgs \<and>
         (\<forall>e \<in> set evs. \<not> qualifies (ev_output e))"
    by blast
  then show ?thesis
    unfolding e by (intro exI[of _ evs]) (auto split: option.splits)
qed

lemma explicit_probe:
  assumes "VersionArg tool \<noteq> []"
  shows "executeVersionCommand sys tool w =
           (case cmd_Run sys (now w)
                   (CommandContext (now w + 5 * Second) (CLI tool) (Fields (VersionArg tool))) of
              (out, err, t) \<Rightarrow>
                ((case err of Some e \<Rightarrow> Inl (CLI tool @ '': '' @ e) | None \<Rightarrow> Inr out),
                 \<lparr>now = t,
                  runs = runs w @
                    [\<lparr>ev_cmd = CommandContext (now w + 5 * Second) (CLI tool)
                                 (Fields (VersionArg tool)),
                      ev_start = now w, ev_output = out, ev_err = err\<rparr>]\<rparr>))"
  using assms
  by (simp add: executeVersionCommand_def runCommand_eq Let_def split: prod.splits option.splits)

text \<open>
  C4. Without explicit probe arguments, \<open>executeVersionCommand\<close> runs the command with
  \<open>--version\<close>, \<open>version\<close>, \<open>-v\<close>, \<open>-V\<close>, \<open>--version-short\<close>, \<open>-version\<close>, in this order and
  one argument set per run, and stops at the first run whose output qualifies (is not empty
  and looks like version text), whatever its error: it returns that output. It fails, with
  \<open><command>: failed to get version\<close>, only after all six runs, none of which qualifies.
\<close>

theorem smart_guess_order:
  assumes "VersionArg tool = []"
  shows "\<exists>evs. runs (snd (executeVersionCommand sys tool w)) = runs w @ evs \<and>
           map (\<lambda>e. (name (ev_cmd e), args (ev_cmd e))) evs =
             map (Pair (CLI tool))
               (take (length evs)
                  [[''--version''], [''version''], [''-v''], [''-V''], [''--version-short''],
                   [''-version'']]) \<and>
           (\<forall>e \<in> set (butlast evs). \<not> qualifies (ev_output e)) \<and>
           (case fst (executeVersionCommand sys tool w) of
              Inr out \<Rightarrow> evs \<noteq> [] \<and> out = ev_output (last evs) \<and> qualifies out
            | Inl err \<Rightarrow> err = CLI tool @ '': failed to get version'' \<and> length evs = 6 \<and>
                (\<forall>e \<in> set evs. \<not> qualifies (ev_output e)))"
proof -
  from smart_guess_trace[OF assms, of sys w] obtain evs where
    1: "runs (snd (executeVersionCommand sys tool w)) = runs w @ evs" and
    2: "map ev_cmd evs = map (CommandContext (now w + 5 * Second) (CLI tool))
                                (take (length evs) commonVersionArgs)" and
    3: "\<forall>e \<in> set (butlast evs). \<not> qualifies (ev_output e)" and
    4: "case fst (executeVersionCommand sys tool w) of
              Inr out \<Rightarrow> evs \<noteq> [] \<and> ev_output (last evs) = out \<and> qualifies out
            | Inl err \<Rightarrow> err = CLI tool @ '': failed to get version'' \<and>
                length evs = length commonVersionArgs \<and>
                (\<forall>e \<in> set evs. \<not> qualifies (ev_output e))"
    by blast
  have "map (\<lambda>e. (name (ev_cmd e), args (ev_cmd e))) evs =
          map (\<lambda>c. (name c, args c)) (map ev_cmd evs)"
    by simp
  also have "\<dots> = map (Pair (CLI tool)) (take (length evs) commonVersionArgs)"
    unfolding 2 by (simp add: CommandContext_def)
  finally have 5: "map (\<lambda>e. (name (ev_cmd e), args (ev_cmd e))) evs =
             map (Pair (CLI tool))
               (take (length evs)
                  [[''--version''], [''version''], [''-v''], [''-V''], [''--version-short''],
                   [''-version'']])"
    by (simp only: commonVersionArgs_def)
  have 6: "case fst (executeVersionCommand sys tool w) of
              Inr out \<Rightarrow> evs \<noteq> [] \<and> out = ev_output (last evs) \<and> qualifies out
            | Inl err \<Rightarrow> err = CLI tool @ '': failed to get version'' \<and> length evs = 6 \<and>
                (\<forall>e \<in> set evs. \<not> qualifies (ev_output e))"
    using 4 by (auto simp: commonVersionArgs_def split: sum.splits)
  from 1 5 3 6 show ?thesis by blast
qed

theorem smart_guess_order_witness:
  "VersionArg go_tool = [] \<and>
   fst (executeVersionCommand lab go_tool w0) = Inr ''go version go1.20.0 darwin/amd64\<newline>'' \<and>
   (\<exists>evs. runs (snd (executeVersionCommand lab go_tool w0)) = runs w0 @ evs \<and>
      map (\<lambda>e. (name (ev_cmd e), args (ev_cmd e))) evs =
        map (Pair (CLI go_tool))
          (take (length evs)
             [[''--version''], [''version''], [''-v''], [''-V''], [''--version-short''],
              [''-version'']]) \<and>
      (\<forall>e \<in> set (butlast evs). \<not> qualifies (ev_output e)) \<and>
      evs \<noteq> [] \<and> ev_output (last evs) = ''go version go1.20.0 darwin/amd64\<newline>'')"
proof -
  have h: "VersionArg go_tool = []" by (simp add: go_tool_def)
  have r: "fst (executeVersionCommand lab go_tool w0) = Inr ''go version go1.20.0 darwin/amd64\<newline>''"
    by (simp add: lab_probe_go)
  from smart_guess_order[OF h, of lab w0] r h show ?thesis
    by auto
qed

text \<open>
  C3. With explicit probe arguments the command is run once, with the fields of the
  argument string. The claim is that a captured text is a success even when the run ended
  with an error. The code returns the error whenever the run has one and drops the text: on
  \<open>kube\<close>, \<open>kubeconform -v\<close> prints \<open>v0.6.4\<close> and exits with status 1, the probe fails and the
  check is \<open>fail\<close>; the smart guess, on the same machine, accepts the same text.
\<close>

theorem explicit_args_error_drops_output:
  "executeVersionCommand kube kube_tool w0 =
     (Inl ''kubeconform: exit status 1'',
      \<lparr>now = 1000,
       runs = [\<lparr>ev_cmd = \<lparr>ctx = 5000000000, name = ''kubeconform'', args = [''-v'']\<rparr>,
                ev_start = 0, ev_output = ''v0.6.4\<newline>'', ev_err = Some ''exit status 1''\<rparr>]\<rparr>) \<and>
   Status (fst (Check kube kube_tool w0)) = StatusFail \<and>
   Error (fst (Check kube kube_tool w0)) = Some ''kubeconform: exit status 1'' \<and>
   fst (executeVersionCommand kube (kube_tool\<lparr>VersionArg := []\<rparr>) w0) = Inr ''v0.6.4\<newline>''"
  by (simp add: eval_defs kube_def kube_tool_def w0_def Fields.simps)

text \<open>
  C9. The claim is that each attempt of the smart guess has a timeout of 5 seconds of its
  own. The code makes one context, with a deadline 5 seconds after the probe starts, and
  gives it to every attempt: on \<open>slow\<close> the first attempt uses the 5 seconds up and the five
  others start with no time left.
\<close>

theorem smart_guess_budget_counterexample:
  "map budget (runs (snd (executeVersionCommand slow slow_tool w0))) =
     [5000000000, 0, 0, 0, 0, 0] \<and>
   map ev_start (runs (snd (executeVersionCommand slow slow_tool w0))) =
     [0, 5000000000, 5000000000, 5000000000, 5000000000, 5000000000] \<and>
   map ev_err (runs (snd (executeVersionCommand slow slow_tool w0))) =
     [Some ''signal: killed'', Some ''context deadline exceeded'',
      Some ''context deadline exceeded'', Some ''context deadline exceeded'',
      Some ''context deadline exceeded'', Some ''context deadline exceeded'']"
  by (simp add: eval_defs slow_def slow_tool_def w0_def budget_def)

text \<open>
  C9, amended. The attempts of the smart guess, at least one and at most six, are separate
  runs of the command that share one deadline, 5 seconds after the start of the probe; the
  first starts when the probe starts. An attempt whose output does not qualify, timed out or
  not, is followed by the run of the next argument set, as long as there is one.
\<close>

theorem smart_guess_shared_deadline:
  assumes "VersionArg tool = []"
  shows "\<exists>evs. runs (snd (executeVersionCommand sys tool w)) = runs w @ evs \<and>
           evs \<noteq> [] \<and> length evs \<le> 6 \<and> ev_start (hd evs) = now w \<and>
           (\<forall>e \<in> set evs. name (ev_cmd e) = CLI tool \<and>
                            ctx (ev_cmd e) = now w + 5 * Second) \<and>
           (\<forall>i < length evs. i < 5 \<and> \<not> qualifies (ev_output (evs ! i))
                               \<longrightarrow> Suc i < length evs)"
proof -
  let ?c = "now w + 5 * Second"
  from smart_guess_trace[OF assms, of sys w] obtain evs where
    1: "runs (snd (executeVersionCommand sys tool w)) = runs w @ evs" and
    2: "map ev_cmd evs = map (CommandContext ?c (CLI tool))
                                (take (length evs) commonVersionArgs)" and
    3: "evs \<noteq> [] \<longrightarrow> ev_start (hd evs) = now w" and
    4: "case fst (executeVersionCommand sys tool w) of
              Inr out \<Rightarrow> evs \<noteq> [] \<and> ev_output (last evs) = out \<and> qualifies out
            | Inl err \<Rightarrow> err = CLI tool @ '': failed to get version'' \<and>
                length evs = length commonVersionArgs \<and>
                (\<forall>e \<in> set evs. \<not> qualifies (ev_output e))"
    by blast
  have ne: "evs \<noteq> []"
    using 4 by (auto simp: commonVersionArgs_def split: sum.splits)
  have "length (map ev_cmd evs) \<le> length commonVersionArgs"
    unfolding 2 by simp
  then have le: "length evs \<le> 6" by (simp add: commonVersionArgs_def)
  have cx: "name (ev_cmd e) = CLI tool \<and> ctx (ev_cmd e) = ?c" if "e \<in> set evs" for e
  proof -
    from that have "ev_cmd e \<in> set (map ev_cmd evs)" by simp
    then obtain as where "ev_cmd e = CommandContext ?c (CLI tool) as"
      unfolding 2 by auto
    then show ?thesis by (simp add: CommandContext_def)
  qed
  have nx: "Suc i < length evs"
    if "i < length evs" and "i < 5" and nq: "\<not> qualifies (ev_output (evs ! i))" for i
  proof (rule ccontr)
    assume "\<not> Suc i < length evs"
    with that have i: "i = length evs - 1" by simp
    with ne have l: "evs ! i = last evs" by (simp add: last_conv_nth)
    show False
    proof (cases "fst (executeVersionCommand sys tool w)")
      case (Inl err)
      with 4 have "length evs = 6" by (simp add: commonVersionArgs_def)
      with i that show False by simp
    next
      case (Inr out)
      with 4 have "qualifies (ev_output (last evs))" by simp
      with l nq show False by simp
    qed
  qed
  from 1 ne le 3 cx nx show ?thesis by blast
qed

theorem smart_guess_shared_deadline_witness:
  "VersionArg slow_tool = [] \<and>
   (\<exists>evs. runs (snd (executeVersionCommand slow slow_tool w0)) = runs w0 @ evs \<and>
      evs \<noteq> [] \<and> length evs \<le> 6 \<and> ev_start (hd evs) = now w0 \<and>
      (\<forall>e \<in> set evs. name (ev_cmd e) = CLI slow_tool \<and>
                       ctx (ev_cmd e) = now w0 + 5 * Second) \<and>
      (\<forall>i < length evs. i < 5 \<and> \<not> qualifies (ev_output (evs ! i))
                          \<longrightarrow> Suc i < length evs)) \<and>
   length (runs (snd (executeVersionCommand slow slow_tool w0))) = 6"
proof -
  have h: "VersionArg slow_tool = []" by (simp add: slow_tool_def)
  have l: "length (runs (snd (executeVersionCommand slow slow_tool w0))) = 6"
    by (simp add: eval_defs slow_def slow_tool_def w0_def)
  from smart_guess_shared_deadline[OF h, of slow w0] h l show ?thesis by blast
qed

end
